theory Spec2Isabelle
  imports Main "HOL-Library.Word"
begin

section \<open>Values exchanged by the ethash remote-miner API\<close>

text \<open>
  The embedded file is \<^verbatim>\<open>consensus/ethash/api.go\<close>. Its four methods talk to the
  engine's worker loop over Go channels. Fixed-size byte arrays are words of the same
  width, Go strings are \<^typ>\<open>string\<close>, a nil-able pointer, slice or interface value is an
  \<^typ>\<open>'a option\<close> with \<^term>\<open>None\<close> for nil.
\<close>

type_synonym byte = "8 word"
type_synonym BlockNonce = "64 word" \<comment> \<open>\<^verbatim>\<open>types.BlockNonce\<close>, \<^verbatim>\<open>[8]byte\<close>\<close>
type_synonym Hash = "256 word" \<comment> \<open>\<^verbatim>\<open>common.Hash\<close>, \<^verbatim>\<open>[32]byte\<close>\<close>
type_synonym chan_id = nat \<comment> \<open>the address of a channel object\<close>

text \<open>An error value is identified with the message it was built from.\<close>

datatype error = errors_New string

definition errEthashStopped :: error where
  "errEthashStopped = errors_New ''ethash stopped''"

text \<open>\<^verbatim>\<open>[11]string\<close>: the array type fixes the length; its zero value is eleven empty strings.\<close>

type_synonym work = "string list"

definition zero_work :: work where
  "zero_work = replicate 11 []"

section \<open>Go channels\<close>

text \<open>
  A channel as the Go runtime keeps it: capacity, buffered values, the closed flag, the
  number of receivers parked on it and the values offered by parked senders. \<open>handed\<close>
  logs, in order, the values that a send passed directly to a parked receiver.
\<close>

record 'a chan =
  cap :: nat
  buf :: "'a list"
  closed :: bool
  recvq :: nat
  sendq :: "'a list"
  handed :: "'a list"

definition make_chan :: "nat \<Rightarrow> 'a chan" where
  "make_chan n = \<lparr>cap = n, buf = [], closed = False, recvq = 0, sendq = [], handed = []\<rparr>"

text \<open>
  A send can proceed on a closed channel (it panics), when a receiver is parked, or when
  the buffer has room. A nil channel (\<^term>\<open>None\<close>) is never ready.
\<close>

definition send_ready :: "'a chan option \<Rightarrow> bool" where
  "send_ready co =
     (case co of None \<Rightarrow> False
      | Some c \<Rightarrow> closed c \<or> 0 < recvq c \<or> length (buf c) < cap c)"

definition chansend :: "'a \<Rightarrow> 'a chan \<Rightarrow> 'a chan" where
  "chansend v c =
     (if 0 < recvq c then c\<lparr>recvq := recvq c - 1, handed := handed c @ [v]\<rparr>
      else c\<lparr>buf := buf c @ [v]\<rparr>)"

text \<open>
  A receive can proceed when a value is buffered, a sender is parked, or the channel is
  closed; from a closed, drained channel it yields the zero value of the element type.
\<close>

definition recv_ready :: "'a chan option \<Rightarrow> bool" where
  "recv_ready co =
     (case co of None \<Rightarrow> False
      | Some c \<Rightarrow> closed c \<or> 0 < length (buf c) \<or> 0 < length (sendq c))"

definition chanrecv :: "'a \<Rightarrow> 'a chan \<Rightarrow> 'a \<times> 'a chan" where
  "chanrecv zero c =
     (case buf c of
        v # vs \<Rightarrow>
          (case sendq c of
             [] \<Rightarrow> (v, c\<lparr>buf := vs\<rparr>)
           | s # ss \<Rightarrow> (v, c\<lparr>buf := vs @ [s], sendq := ss\<rparr>))
      | [] \<Rightarrow>
          (case sendq c of
             s # ss \<Rightarrow> (s, c\<lparr>sendq := ss\<rparr>)
           | [] \<Rightarrow> (zero, c)))"

text \<open>Receiving through a store of channels; only used where the receive is ready.\<close>

definition store_recv ::
  "'a \<Rightarrow> (chan_id \<rightharpoonup> 'a chan) \<Rightarrow> chan_id \<Rightarrow> 'a \<times> (chan_id \<rightharpoonup> 'a chan)" where
  "store_recv zero m c =
     (case m c of
        None \<Rightarrow> (zero, m)
      | Some ch \<Rightarrow> (fst (chanrecv zero ch), m(c \<mapsto> snd (chanrecv zero ch))))"

text \<open>
  A \<^verbatim>\<open>select\<close> with two cases polls them in a random order and takes the first that
  can proceed; \<open>pick\<close> is that order. With no case ready the goroutine stays parked.
\<close>

datatype pick = Case1_first | Case2_first

datatype chosen = Case1 | Case2 | Parked

definition select2 :: "pick \<Rightarrow> bool \<Rightarrow> bool \<Rightarrow> chosen" where
  "select2 p r1 r2 =
     (if r1 then (if r2 then (case p of Case1_first \<Rightarrow> Case1 | Case2_first \<Rightarrow> Case2) else Case1)
      else if r2 then Case2 else Parked)"

section \<open>Messages, the remote handle and the heap\<close>

record sealWork =
  errc :: chan_id
  res :: chan_id

record mineResult =
  nonce :: BlockNonce
  mixDigest :: Hash
  hash :: Hash
  extraNonce :: "byte list option"
  errc :: chan_id

text \<open>The field \<^verbatim>\<open>done\<close> is written \<open>done_c\<close>, the field \<^verbatim>\<open>id\<close> is \<open>hashrate.id\<close>.\<close>

record hashrate =
  done_c :: chan_id
  rate :: "64 word"
  id :: Hash

text \<open>
  The struct behind \<^verbatim>\<open>api.ethash.remote\<close> is declared outside this file; the API uses
  these four channel fields of it.
\<close>

record remoteSealer =
  fetchWorkCh :: chan_id
  submitWorkCh :: chan_id
  submitRateCh :: chan_id
  exitCh :: chan_id

record Ethash =
  remote :: "remoteSealer option"

record API =
  ethash :: Ethash

text \<open>
  The heap holds every channel, one store per element type, and the allocator \<open>nxt\<close>:
  \<^verbatim>\<open>make\<close> returns the address \<open>nxt\<close> and advances it.
\<close>

record heap =
  chans_work :: "chan_id \<rightharpoonup> work chan"
  chans_err :: "chan_id \<rightharpoonup> error option chan"
  chans_unit :: "chan_id \<rightharpoonup> unit chan"
  chans_sealWork :: "chan_id \<rightharpoonup> sealWork chan"
  chans_mineResult :: "chan_id \<rightharpoonup> mineResult chan"
  chans_hashrate :: "chan_id \<rightharpoonup> hashrate chan"
  nxt :: chan_id

definition empty_heap :: heap where
  "empty_heap =
     \<lparr>chans_work = Map.empty, chans_err = Map.empty, chans_unit = Map.empty,
      chans_sealWork = Map.empty, chans_mineResult = Map.empty,
      chans_hashrate = Map.empty, nxt = 0\<rparr>"

section \<open>GetWork\<close>

text \<open>
  Each method is a small machine: one step runs the calling goroutine up to its next
  blocking point, under the heap as the other goroutines left it. A step from a blocking
  point whose communication cannot proceed leaves the configuration unchanged.
\<close>

datatype GetWork_pc =
    GetWork_entry
  | GetWork_send chan_id chan_id \<comment> \<open>the \<^verbatim>\<open>select\<close> of line 54, with the local \<open>workCh\<close> and \<open>errCh\<close> (\<^verbatim>\<open>errc\<close>)\<close>
  | GetWork_wait chan_id chan_id \<comment> \<open>the \<^verbatim>\<open>select\<close> of line 59\<close>
  | GetWork_return work "error option"
  | GetWork_panic

fun GetWork :: "API \<Rightarrow> pick \<Rightarrow> heap \<times> GetWork_pc \<Rightarrow> heap \<times> GetWork_pc" where
  "GetWork api p (h, GetWork_entry) =
     (case remote (ethash api) of
        None \<Rightarrow> (h, GetWork_return zero_work (Some (errors_New ''not supported'')))
      | Some r \<Rightarrow>
          (let workCh = nxt h; errCh = Suc (nxt h) in
             (h\<lparr>chans_work := (chans_work h)(workCh \<mapsto> make_chan 1),
                chans_err := (chans_err h)(errCh \<mapsto> make_chan 1),
                nxt := Suc (Suc (nxt h))\<rparr>,
              GetWork_send workCh errCh)))"
| "GetWork api p (h, GetWork_send workCh errCh) =
     (case remote (ethash api) of
        None \<Rightarrow> (h, GetWork_panic)
      | Some r \<Rightarrow>
          (case select2 p (send_ready (chans_sealWork h (fetchWorkCh r)))
                          (recv_ready (chans_unit h (exitCh r))) of
             Case1 \<Rightarrow>
               (case chans_sealWork h (fetchWorkCh r) of
                  None \<Rightarrow> (h, GetWork_send workCh errCh)
                | Some c \<Rightarrow>
                    if closed c then (h, GetWork_panic)
                    else (h\<lparr>chans_sealWork := (chans_sealWork h)
                              (fetchWorkCh r \<mapsto>
                                 chansend \<lparr>sealWork.errc = errCh, res = workCh\<rparr> c)\<rparr>,
                          GetWork_wait workCh errCh))
           | Case2 \<Rightarrow>
               (h\<lparr>chans_unit := snd (store_recv () (chans_unit h) (exitCh r))\<rparr>,
                GetWork_return zero_work (Some errEthashStopped))
           | Parked \<Rightarrow> (h, GetWork_send workCh errCh)))"
| "GetWork api p (h, GetWork_wait workCh errCh) =
     (case select2 p (recv_ready (chans_work h workCh)) (recv_ready (chans_err h errCh)) of
        Case1 \<Rightarrow>
          (h\<lparr>chans_work := snd (store_recv zero_work (chans_work h) workCh)\<rparr>,
           GetWork_return (fst (store_recv zero_work (chans_work h) workCh)) None)
      | Case2 \<Rightarrow>
          (h\<lparr>chans_err := snd (store_recv None (chans_err h) errCh)\<rparr>,
           GetWork_return zero_work (fst (store_recv None (chans_err h) errCh)))
      | Parked \<Rightarrow> (h, GetWork_wait workCh errCh))"
| "GetWork api p (h, GetWork_return w e) = (h, GetWork_return w e)"
| "GetWork api p (h, GetWork_panic) = (h, GetWork_panic)"

section \<open>SubmitWork\<close>

text \<open>
  \<^verbatim>\<open>hexutil.Decode\<close> belongs to an imported library; it is the parameter \<open>Decode\<close>,
  returning the pair of byte slice and error as the Go function does.
\<close>

type_synonym decoder = "string \<Rightarrow> byte list option \<times> error option"

datatype SubmitWork_pc =
    SubmitWork_entry BlockNonce Hash Hash "string option"
      \<comment> \<open>the arguments \<^verbatim>\<open>nonce\<close>, \<^verbatim>\<open>hash\<close>, \<^verbatim>\<open>digest\<close>, \<^verbatim>\<open>extraNonceStr\<close>\<close>
  | SubmitWork_send mineResult \<comment> \<open>the \<^verbatim>\<open>select\<close> of line 85, its message evaluated\<close>
  | SubmitWork_wait chan_id \<comment> \<open>the receive of line 96 on the local \<^verbatim>\<open>errc\<close>\<close>
  | SubmitWork_return bool
  | SubmitWork_panic

fun SubmitWork ::
  "decoder \<Rightarrow> API \<Rightarrow> pick \<Rightarrow> heap \<times> SubmitWork_pc \<Rightarrow> heap \<times> SubmitWork_pc" where
  "SubmitWork Decode api p (h, SubmitWork_entry n hsh digest extraNonceStr) =
     (case remote (ethash api) of
        None \<Rightarrow> (h, SubmitWork_return False)
      | Some r \<Rightarrow>
          (case (case extraNonceStr of None \<Rightarrow> (None, None) | Some s \<Rightarrow> Decode s) of
             (bytes, Some err) \<Rightarrow> (h, SubmitWork_return False)
           | (bytes, None) \<Rightarrow>
               (let errCh = nxt h in
                  (h\<lparr>chans_err := (chans_err h)(errCh \<mapsto> make_chan 1), nxt := Suc (nxt h)\<rparr>,
                   SubmitWork_send
                     \<lparr>nonce = n, mixDigest = digest, hash = hsh, extraNonce = bytes,
                      errc = errCh\<rparr>))))"
| "SubmitWork Decode api p (h, SubmitWork_send m) =
     (case remote (ethash api) of
        None \<Rightarrow> (h, SubmitWork_panic)
      | Some r \<Rightarrow>
          (case select2 p (send_ready (chans_mineResult h (submitWorkCh r)))
                          (recv_ready (chans_unit h (exitCh r))) of
             Case1 \<Rightarrow>
               (case chans_mineResult h (submitWorkCh r) of
                  None \<Rightarrow> (h, SubmitWork_send m)
                | Some c \<Rightarrow>
                    if closed c then (h, SubmitWork_panic)
                    else (h\<lparr>chans_mineResult := (chans_mineResult h)
                              (submitWorkCh r \<mapsto> chansend m c)\<rparr>,
                          SubmitWork_wait (mineResult.errc m)))
           | Case2 \<Rightarrow>
               (h\<lparr>chans_unit := snd (store_recv () (chans_unit h) (exitCh r))\<rparr>,
                SubmitWork_return False)
           | Parked \<Rightarrow> (h, SubmitWork_send m)))"
| "SubmitWork Decode api p (h, SubmitWork_wait errCh) =
     (if recv_ready (chans_err h errCh)
      then (h\<lparr>chans_err := snd (store_recv None (chans_err h) errCh)\<rparr>,
            SubmitWork_return (fst (store_recv None (chans_err h) errCh) = None))
      else (h, SubmitWork_wait errCh))"
| "SubmitWork Decode api p (h, SubmitWork_return b) = (h, SubmitWork_return b)"
| "SubmitWork Decode api p (h, SubmitWork_panic) = (h, SubmitWork_panic)"

section \<open>SubmitHashrate\<close>

text \<open>\<^verbatim>\<open>hexutil.Uint64\<close> is a named \<^verbatim>\<open>uint64\<close>: the conversion of \<open>rate\<close> changes nothing.\<close>

datatype SubmitHashrate_pc =
    SubmitHashrate_entry "64 word" Hash \<comment> \<open>the arguments \<^verbatim>\<open>rate\<close> and \<^verbatim>\<open>id\<close>\<close>
  | SubmitHashrate_send hashrate \<comment> \<open>the \<^verbatim>\<open>select\<close> of line 112\<close>
  | SubmitHashrate_wait chan_id \<comment> \<open>the receive of line 119 on the local \<^verbatim>\<open>done\<close>\<close>
  | SubmitHashrate_return bool
  | SubmitHashrate_panic

fun SubmitHashrate ::
  "API \<Rightarrow> pick \<Rightarrow> heap \<times> SubmitHashrate_pc \<Rightarrow> heap \<times> SubmitHashrate_pc" where
  "SubmitHashrate api p (h, SubmitHashrate_entry rt ident) =
     (case remote (ethash api) of
        None \<Rightarrow> (h, SubmitHashrate_return False)
      | Some r \<Rightarrow>
          (let doneCh = nxt h in
             (h\<lparr>chans_unit := (chans_unit h)(doneCh \<mapsto> make_chan 1), nxt := Suc (nxt h)\<rparr>,
              SubmitHashrate_send \<lparr>done_c = doneCh, rate = rt, id = ident\<rparr>)))"
| "SubmitHashrate api p (h, SubmitHashrate_send m) =
     (case remote (ethash api) of
        None \<Rightarrow> (h, SubmitHashrate_panic)
      | Some r \<Rightarrow>
          (case select2 p (send_ready (chans_hashrate h (submitRateCh r)))
                          (recv_ready (chans_unit h (exitCh r))) of
             Case1 \<Rightarrow>
               (case chans_hashrate h (submitRateCh r) of
                  None \<Rightarrow> (h, SubmitHashrate_send m)
                | Some c \<Rightarrow>
                    if closed c then (h, SubmitHashrate_panic)
                    else (h\<lparr>chans_hashrate := (chans_hashrate h)
                              (submitRateCh r \<mapsto> chansend m c)\<rparr>,
                          SubmitHashrate_wait (done_c m)))
           | Case2 \<Rightarrow>
               (h\<lparr>chans_unit := snd (store_recv () (chans_unit h) (exitCh r))\<rparr>,
                SubmitHashrate_return False)
           | Parked \<Rightarrow> (h, SubmitHashrate_send m)))"
| "SubmitHashrate api p (h, SubmitHashrate_wait doneCh) =
     (if recv_ready (chans_unit h doneCh)
      then (h\<lparr>chans_unit := snd (store_recv () (chans_unit h) doneCh)\<rparr>,
            SubmitHashrate_return True)
      else (h, SubmitHashrate_wait doneCh))"
| "SubmitHashrate api p (h, SubmitHashrate_return b) = (h, SubmitHashrate_return b)"
| "SubmitHashrate api p (h, SubmitHashrate_panic) = (h, SubmitHashrate_panic)"

section \<open>GetHashrate\<close>

text \<open>
  Modelled from the spec: \<^verbatim>\<open>Ethash.Hashrate\<close>, the engine's own aggregate hash-rate
  accessor, is declared outside this file. The spec gives it no message exchange and no
  failure mode, and assumes it always available once the engine object exists: it leaves
  every channel as it is and yields the engine's rate, the parameter \<open>meter\<close>. The
  result \<^term>\<open>None\<close> stands for a failure of the accessor (a panic), which the accessor
  as specified never produces.
\<close>

definition Hashrate :: "(Ethash \<Rightarrow> 'f) \<Rightarrow> Ethash \<Rightarrow> heap \<Rightarrow> heap \<times> 'f option" where
  "Hashrate meter e h = (h, Some (meter e))"

text \<open>
  GetHashrate calls the accessor and converts its \<^verbatim>\<open>float64\<close> to \<^verbatim>\<open>uint64\<close>; the
  conversion is the parameter \<open>uint64\<close>. It has no branch of its own: a failure of the
  accessor would pass through it.
\<close>

definition GetHashrate ::
  "('f \<Rightarrow> 64 word) \<Rightarrow> (Ethash \<Rightarrow> 'f) \<Rightarrow> API \<Rightarrow> heap \<Rightarrow> heap \<times> 64 word option" where
  "GetHashrate uint64 meter api h =
     (case Hashrate meter (ethash api) h of
        (h', None) \<Rightarrow> (h', None)
      | (h', Some f) \<Rightarrow> (h', Some (uint64 f)))"

section \<open>Runs\<close>

text \<open>
  A schedule lists, for each step of the call, what the rest of the program (the worker
  loop, the engine, other callers) did to the heap since the previous step, and the
  polling order of the step's \<^verbatim>\<open>select\<close>.
\<close>

type_synonym schedule = "((heap \<Rightarrow> heap) \<times> pick) list"

fun run :: "(pick \<Rightarrow> heap \<times> 'pc \<Rightarrow> heap \<times> 'pc) \<Rightarrow> schedule \<Rightarrow> heap \<times> 'pc \<Rightarrow> heap \<times> 'pc" where
  "run step [] cfg = cfg"
| "run step (ep # sch) cfg = run step sch (step (snd ep) (fst ep (fst cfg), snd cfg))"

text \<open>What the other goroutines do in the scenarios below.\<close>

definition close_chan :: "chan_id \<Rightarrow> (chan_id \<rightharpoonup> 'a chan) \<Rightarrow> (chan_id \<rightharpoonup> 'a chan)" where
  "close_chan c m = (case m c of None \<Rightarrow> m | Some ch \<Rightarrow> m(c \<mapsto> ch\<lparr>closed := True\<rparr>))"

definition send_chan :: "chan_id \<Rightarrow> 'a \<Rightarrow> (chan_id \<rightharpoonup> 'a chan) \<Rightarrow> (chan_id \<rightharpoonup> 'a chan)" where
  "send_chan c v m = (case m c of None \<Rightarrow> m | Some ch \<Rightarrow> m(c \<mapsto> chansend v ch))"

definition engine_exit :: "remoteSealer \<Rightarrow> heap \<Rightarrow> heap" where
  "engine_exit r h = h\<lparr>chans_unit := close_chan (exitCh r) (chans_unit h)\<rparr>"

definition worker_reply_work :: "chan_id \<Rightarrow> work \<Rightarrow> heap \<Rightarrow> heap" where
  "worker_reply_work c w h = h\<lparr>chans_work := send_chan c w (chans_work h)\<rparr>"

definition worker_reply_err :: "chan_id \<Rightarrow> error option \<Rightarrow> heap \<Rightarrow> heap" where
  "worker_reply_err c e h = h\<lparr>chans_err := send_chan c e (chans_err h)\<rparr>"

definition worker_done :: "chan_id \<Rightarrow> heap \<Rightarrow> heap" where
  "worker_done c h = h\<lparr>chans_unit := close_chan c (chans_unit h)\<rparr>"

text \<open>
  A heap with an engine: unbuffered intake channels at addresses 0 to 2, each with the
  worker parked as receiver, and the open exit channel at address 3.
\<close>

definition remote0 :: remoteSealer where
  "remote0 = \<lparr>fetchWorkCh = 0, submitWorkCh = 1, submitRateCh = 2, exitCh = 3\<rparr>"

definition api0 :: API where
  "api0 = \<lparr>ethash = \<lparr>remote = Some remote0\<rparr>\<rparr>"

definition api_nil :: API where
  "api_nil = \<lparr>ethash = \<lparr>remote = None\<rparr>\<rparr>"

definition heap0 :: heap where
  "heap0 =
     \<lparr>chans_work = Map.empty, chans_err = Map.empty,
      chans_unit = [3 \<mapsto> make_chan 0],
      chans_sealWork = [0 \<mapsto> (make_chan 0)\<lparr>recvq := 1\<rparr>],
      chans_mineResult = [1 \<mapsto> (make_chan 0)\<lparr>recvq := 1\<rparr>],
      chans_hashrate = [2 \<mapsto> (make_chan 0)\<lparr>recvq := 1\<rparr>],
      nxt = 4\<rparr>"

section \<open>A decoder for the scenarios\<close>

text \<open>
  A stand-in for the imported \<^verbatim>\<open>hexutil.Decode\<close>, used only to instantiate the
  parameter \<open>Decode\<close> at concrete inputs: the input must be non-empty, start with
  \<^verbatim>\<open>0x\<close> and continue with an even number of hex digits.
\<close>

definition fromHexChar :: "char \<Rightarrow> nat option" where
  "fromHexChar =
     map_of
       [(CHR ''0'', 0), (CHR ''1'', 1), (CHR ''2'', 2), (CHR ''3'', 3), (CHR ''4'', 4),
        (CHR ''5'', 5), (CHR ''6'', 6), (CHR ''7'', 7), (CHR ''8'', 8), (CHR ''9'', 9),
        (CHR ''a'', 10), (CHR ''b'', 11), (CHR ''c'', 12), (CHR ''d'', 13),
        (CHR ''e'', 14), (CHR ''f'', 15),
        (CHR ''A'', 10), (CHR ''B'', 11), (CHR ''C'', 12), (CHR ''D'', 13),
        (CHR ''E'', 14), (CHR ''F'', 15)]"

fun hex_DecodeString :: "string \<Rightarrow> byte list \<Rightarrow> byte list \<times> error option" where
  "hex_DecodeString [] acc = (acc, None)"
| "hex_DecodeString [a] acc =
     (case fromHexChar a of
        None \<Rightarrow> (acc, Some (errors_New ''invalid hex string''))
      | Some x \<Rightarrow> (acc, Some (errors_New ''hex string of odd length'')))"
| "hex_DecodeString (a # b # cs) acc =
     (case fromHexChar a of
        None \<Rightarrow> (acc, Some (errors_New ''invalid hex string''))
      | Some x \<Rightarrow>
          (case fromHexChar b of
             None \<Rightarrow> (acc, Some (errors_New ''invalid hex string''))
           | Some y \<Rightarrow> hex_DecodeString cs (acc @ [of_nat (16 * x + y)])))"

definition has0xPrefix :: "string \<Rightarrow> bool" where
  "has0xPrefix input =
     (case input of
        a # b # cs \<Rightarrow> a = CHR ''0'' \<and> (b = CHR ''x'' \<or> b = CHR ''X'')
      | _ \<Rightarrow> False)"

definition hexutil_Decode :: decoder where
  "hexutil_Decode input =
     (if input = [] then (None, Some (errors_New ''empty hex string''))
      else if has0xPrefix input
      then (Some (fst (hex_DecodeString (drop 2 input) [])),
            snd (hex_DecodeString (drop 2 input) []))
      else (None, Some (errors_New ''hex string without 0x prefix'')))"

section \<open>Allocation discipline\<close>

text \<open>
  An address is fresh when no store holds a channel at it. In a well-allocated heap every
  address from \<open>nxt\<close> on is fresh, and no message queued on, offered to or handed over
  on an intake channel mentions such an address.
\<close>

definition fresh :: "heap \<Rightarrow> chan_id \<Rightarrow> bool" where
  "fresh h c =
     (chans_work h c = None \<and> chans_err h c = None \<and> chans_unit h c = None \<and>
      chans_sealWork h c = None \<and> chans_mineResult h c = None \<and>
      chans_hashrate h c = None)"

definition msgs :: "'a chan \<Rightarrow> 'a list" where
  "msgs c = buf c @ sendq c @ handed c"

definition mentioned :: "heap \<Rightarrow> chan_id set" where
  "mentioned h =
     {c. (\<exists>a ch m. chans_sealWork h a = Some ch \<and> m \<in> set (msgs ch) \<and>
            (sealWork.errc m = c \<or> res m = c)) \<or>
         (\<exists>a ch m. chans_mineResult h a = Some ch \<and> m \<in> set (msgs ch) \<and>
            mineResult.errc m = c) \<or>
         (\<exists>a ch m. chans_hashrate h a = Some ch \<and> m \<in> set (msgs ch) \<and> done_c m = c)}"

definition alloc_ok :: "heap \<Rightarrow> bool" where
  "alloc_ok h = ((\<forall>c. nxt h \<le> c \<longrightarrow> fresh h c) \<and> (\<forall>c \<in> mentioned h. c < nxt h))"

text \<open>A work package for the scenarios.\<close>

definition work0 :: work where
  "work0 = [''0xaa'', ''0xbb'', ''0xcc'', ''0x1'', ''0xdd'', ''0x2'', ''0x3'', ''0x4'',
            ''0x5'', ''0xf8'', ''0.124'']"

text \<open>The configuration of a SubmitHashrate call after its first \<open>k\<close> scheduled steps.\<close>

definition SubmitHashrate_after ::
  "API \<Rightarrow> schedule \<Rightarrow> heap \<Rightarrow> 64 word \<Rightarrow> Hash \<Rightarrow> nat \<Rightarrow> heap \<times> SubmitHashrate_pc" where
  "SubmitHashrate_after api sch h rt ident k =
     run (SubmitHashrate api) (take k sch) (h, SubmitHashrate_entry rt ident)"

section \<open>Several calls on one heap\<close>







text \<open>The heap after GetWork has sent its request, for a scenario.\<close>

definition heap_sent :: heap where
  "heap_sent =
     heap0\<lparr>chans_work := [4 \<mapsto> make_chan 1], chans_err := [5 \<mapsto> make_chan 1], nxt := 6\<rparr>"



section \<open>Facts about channels\<close>

lemma chanrecv_head: "buf c = v # vs \<Longrightarrow> fst (chanrecv zero c) = v"
  by (simp add: chanrecv_def split: list.splits)

lemma store_recv_head:
  "m a = Some c \<Longrightarrow> buf c = v # vs \<Longrightarrow> fst (store_recv zero m a) = v"
  by (simp add: store_recv_def chanrecv_head)

lemma recv_ready_buffered: "m a = Some c \<Longrightarrow> buf c = v # vs \<Longrightarrow> recv_ready (m a)"
  by (simp add: recv_ready_def)

section \<open>No engine configured\<close>

text \<open>
  C1. With \<^verbatim>\<open>api.ethash.remote\<close> nil, the first step of each call returns: GetWork
  the eleven empty strings with the error "not supported", SubmitWork and SubmitHashrate
  false. The heap is the one the call found, so no channel was made and no message was
  sent on any channel.
\<close>

theorem no_remote_fails_fast:
  assumes "remote (ethash api) = None"
  shows "GetWork api p (h, GetWork_entry) =
           (h, GetWork_return (replicate 11 []) (Some (errors_New ''not supported'')))
       \<and> SubmitWork Decode api p (h, SubmitWork_entry n hsh digest extraNonceStr) =
           (h, SubmitWork_return False)
       \<and> SubmitHashrate api p (h, SubmitHashrate_entry rt ident) =
           (h, SubmitHashrate_return False)"
  using assms by (simp add: zero_work_def)

theorem no_remote_fails_fast_witness:
  "remote (ethash api_nil) = None
   \<and> GetWork api_nil Case1_first (heap0, GetWork_entry) =
       (heap0, GetWork_return [[], [], [], [], [], [], [], [], [], [], []]
                 (Some (errors_New ''not supported'')))
   \<and> SubmitWork hexutil_Decode api_nil Case1_first
         (heap0, SubmitWork_entry 1 2 3 (Some ''0x0a'')) =
       (heap0, SubmitWork_return False)
   \<and> SubmitHashrate api_nil Case1_first (heap0, SubmitHashrate_entry 1000 7) =
       (heap0, SubmitHashrate_return False)"
  using no_remote_fails_fast
    [of api_nil Case1_first heap0 hexutil_Decode 1 2 3 "Some ''0x0a''" 1000 7]
  by (simp add: api_nil_def eval_nat_numeral)

section \<open>The reply to a submitted solution\<close>

text \<open>
  C2. SubmitWork has sent its message and waits on its error channel. When the next value
  on that channel is the worker's reply \<open>e\<close>, the call returns the boolean \<open>e = nil\<close>:
  true for no error, false for any error value. The return carries nothing of \<open>e\<close>
  beyond that boolean.
\<close>

theorem SubmitWork_reply_to_bool:
  assumes "chans_err h errCh = Some c" and "buf c = e # es"
  shows "snd (SubmitWork Decode api p (h, SubmitWork_wait errCh)) =
           SubmitWork_return (e = None)"
  using assms by (simp add: recv_ready_buffered store_recv_head)

theorem SubmitWork_reply_to_bool_witness:
  "snd (run (SubmitWork hexutil_Decode api0)
          [(\<lambda>h. h, Case1_first), (\<lambda>h. h, Case1_first)]
          (heap0, SubmitWork_entry 1 2 3 None)) = SubmitWork_wait 4
   \<and> snd (SubmitWork hexutil_Decode api0 Case1_first
            (worker_reply_err 4 None (heap0\<lparr>chans_err := [4 \<mapsto> make_chan 1], nxt := 5\<rparr>),
             SubmitWork_wait 4)) = SubmitWork_return True
   \<and> snd (SubmitWork hexutil_Decode api0 Case1_first
            (worker_reply_err 4 (Some (errors_New ''stale work''))
               (heap0\<lparr>chans_err := [4 \<mapsto> make_chan 1], nxt := 5\<rparr>),
             SubmitWork_wait 4)) = SubmitWork_return False"
proof -
  let ?h = "heap0\<lparr>chans_err := [4 \<mapsto> make_chan 1], nxt := 5\<rparr>"
  have a: "chans_err (worker_reply_err 4 e ?h) 4 = Some ((make_chan 1)\<lparr>buf := [e]\<rparr>)" for e
    by (simp add: worker_reply_err_def send_chan_def chansend_def make_chan_def)
  have b: "buf ((make_chan 1 :: error option chan)\<lparr>buf := [e]\<rparr>) = e # []" for e
    by simp
  have r: "snd (run (SubmitWork hexutil_Decode api0)
          [(\<lambda>h. h, Case1_first), (\<lambda>h. h, Case1_first)]
          (heap0, SubmitWork_entry 1 2 3 None)) = SubmitWork_wait 4"
    by (simp add: api0_def remote0_def heap0_def select2_def send_ready_def recv_ready_def
        make_chan_def)
  show ?thesis
    using SubmitWork_reply_to_bool
        [where Decode = hexutil_Decode and api = api0 and p = Case1_first, OF a b, of None]
      SubmitWork_reply_to_bool
        [where Decode = hexutil_Decode and api = api0 and p = Case1_first, OF a b,
         of "Some (errors_New ''stale work'')"]
      r
    by simp
qed

section \<open>Shutdown observed at the send\<close>

text \<open>
  C3. The call stands at its first \<^verbatim>\<open>select\<close> and the case taken is the receive
  from \<^verbatim>\<open>exitCh\<close>, not the send. Then GetWork returns the eleven empty strings with
  the error "ethash stopped", SubmitWork and SubmitHashrate return false; and the error
  "ethash stopped" differs from "not supported".
\<close>

theorem shutdown_at_send:
  assumes "remote (ethash api) = Some r"
  shows "(select2 p (send_ready (chans_sealWork h (fetchWorkCh r)))
                    (recv_ready (chans_unit h (exitCh r))) = Case2 \<longrightarrow>
            snd (GetWork api p (h, GetWork_send workCh errCh)) =
              GetWork_return (replicate 11 []) (Some errEthashStopped))
       \<and> (select2 p (send_ready (chans_mineResult h (submitWorkCh r)))
                    (recv_ready (chans_unit h (exitCh r))) = Case2 \<longrightarrow>
            snd (SubmitWork Decode api p (h, SubmitWork_send m)) = SubmitWork_return False)
       \<and> (select2 p (send_ready (chans_hashrate h (submitRateCh r)))
                    (recv_ready (chans_unit h (exitCh r))) = Case2 \<longrightarrow>
            snd (SubmitHashrate api p (h, SubmitHashrate_send m')) =
              SubmitHashrate_return False)
       \<and> errEthashStopped \<noteq> errors_New ''not supported''"
  using assms by (simp add: zero_work_def errEthashStopped_def)

theorem shutdown_at_send_witness:
  "remote (ethash api0) = Some remote0
   \<and> snd (GetWork api0 Case2_first (engine_exit remote0 heap0, GetWork_send 4 5)) =
       GetWork_return [[], [], [], [], [], [], [], [], [], [], []]
         (Some (errors_New ''ethash stopped''))
   \<and> snd (SubmitWork hexutil_Decode api0 Case2_first
            (engine_exit remote0 heap0,
             SubmitWork_send
               \<lparr>nonce = 1, mixDigest = 3, hash = 2, extraNonce = None, errc = 4\<rparr>)) =
       SubmitWork_return False
   \<and> snd (SubmitHashrate api0 Case2_first
            (engine_exit remote0 heap0,
             SubmitHashrate_send \<lparr>done_c = 4, rate = 1000, id = 7\<rparr>)) =
       SubmitHashrate_return False"
proof -
  have r: "remote (ethash api0) = Some remote0"
    by (simp add: api0_def)
  have s: "select2 Case2_first b (recv_ready (chans_unit (engine_exit remote0 heap0) (exitCh remote0))) = Case2" for b
    by (simp add: select2_def recv_ready_def engine_exit_def close_chan_def heap0_def
        remote0_def)
  show ?thesis
    using shutdown_at_send [OF r, of Case2_first "engine_exit remote0 heap0" 4 5 hexutil_Decode
        "\<lparr>nonce = 1, mixDigest = 3, hash = 2, extraNonce = None, errc = 4\<rparr>"
        "\<lparr>done_c = 4, rate = 1000, id = 7\<rparr>"] r s
    by (simp add: errEthashStopped_def eval_nat_numeral)
qed

section \<open>Extra nonce that does not decode\<close>

text \<open>
  C4. When \<^verbatim>\<open>extraNonceStr\<close> is given and decoding it returns an error, the first step
  of SubmitWork returns false and leaves the heap as it found it: no reply channel is
  made, no message is built or sent, no reply is awaited. (With no engine configured the
  same result comes from the nil check.)
\<close>

theorem decode_failure_sends_nothing:
  assumes "snd (Decode s) = Some err"
  shows "SubmitWork Decode api p (h, SubmitWork_entry n hsh digest (Some s)) =
           (h, SubmitWork_return False)"
  using assms by (cases "Decode s") (simp split: option.splits)

theorem decode_failure_sends_nothing_witness:
  "snd (hexutil_Decode ''0xzz'') = Some (errors_New ''invalid hex string'')
   \<and> SubmitWork hexutil_Decode api0 Case1_first
         (heap0, SubmitWork_entry 1 2 3 (Some ''0xzz'')) =
       (heap0, SubmitWork_return False)"
proof -
  have d: "snd (hexutil_Decode ''0xzz'') = Some (errors_New ''invalid hex string'')"
    by (simp add: hexutil_Decode_def has0xPrefix_def fromHexChar_def)
  show ?thesis
    using decode_failure_sends_nothing
        [where Decode = hexutil_Decode and s = "''0xzz''" and api = api0
           and p = Case1_first and h = heap0 and n = 1 and hsh = 2 and digest = 3, OF d] d
    by simp
qed

section \<open>The work package comes back unmodified\<close>

text \<open>
  C5. GetWork has sent its request and stands at its second \<^verbatim>\<open>select\<close>. When the
  worker's answer \<open>w\<close> is the next value on the work channel and the case taken is the
  receive from that channel, the call returns \<open>w\<close> itself with a nil error.
\<close>

theorem GetWork_returns_work_unmodified:
  assumes "chans_work h workCh = Some c" and "buf c = w # ws"
    and "select2 p (recv_ready (chans_work h workCh)) (recv_ready (chans_err h errCh)) = Case1"
  shows "snd (GetWork api p (h, GetWork_wait workCh errCh)) = GetWork_return w None"
  using assms by (simp add: store_recv_head)

theorem GetWork_returns_work_unmodified_witness:
  "snd (run (GetWork api0)
          [(\<lambda>h. h, Case1_first), (\<lambda>h. h, Case1_first),
           (worker_reply_work 4 work0, Case2_first)]
          (heap0, GetWork_entry)) = GetWork_return work0 None"
proof -
  let ?h = "worker_reply_work 4 work0 (fst (run (GetWork api0)
          [(\<lambda>h. h, Case1_first), (\<lambda>h. h, Case1_first)] (heap0, GetWork_entry)))"
  have pc: "snd (run (GetWork api0)
          [(\<lambda>h. h, Case1_first), (\<lambda>h. h, Case1_first)] (heap0, GetWork_entry)) = GetWork_wait 4 5"
    by (simp add: api0_def remote0_def heap0_def select2_def send_ready_def recv_ready_def
        make_chan_def)
  have a: "chans_work ?h 4 = Some ((make_chan 1)\<lparr>buf := [work0]\<rparr>)"
    by (simp add: api0_def remote0_def heap0_def select2_def send_ready_def recv_ready_def
        make_chan_def worker_reply_work_def send_chan_def chansend_def)
  have b: "buf ((make_chan 1 :: work chan)\<lparr>buf := [work0]\<rparr>) = work0 # []"
    by simp
  have s: "select2 Case2_first (recv_ready (chans_work ?h 4)) (recv_ready (chans_err ?h 5)) = Case1"
    by (simp add: api0_def remote0_def heap0_def select2_def send_ready_def recv_ready_def
        make_chan_def worker_reply_work_def send_chan_def chansend_def)
  show ?thesis
    using GetWork_returns_work_unmodified [OF a b s, of api0] pc
    by simp
qed

section \<open>GetHashrate\<close>

text \<open>
  C9. In every state of the API and of the heap, GetHashrate returns the engine's
  aggregate rate converted to \<^verbatim>\<open>uint64\<close>, and it always returns a value, never a
  failure. The heap after the call is the heap before it: no channel has received a
  message, none was made, closed or read. The field \<^verbatim>\<open>api.ethash.remote\<close> is not
  consulted, so all this holds in particular when no engine is configured, where the
  other three methods return their failure values.
\<close>

theorem GetHashrate_no_message_no_failure:
  "GetHashrate uint64 meter api h = (h, Some (uint64 (meter (ethash api)))) \<and>
   GetHashrate uint64 meter api_nil h = (h, Some (uint64 (meter (ethash api_nil)))) \<and>
   snd (GetWork api_nil p (h, GetWork_entry)) =
     GetWork_return zero_work (Some (errors_New ''not supported'')) \<and>
   snd (SubmitWork Decode api_nil p (h, SubmitWork_entry n hsh digest x)) =
     SubmitWork_return False \<and>
   snd (SubmitHashrate api_nil p (h, SubmitHashrate_entry rt ident)) =
     SubmitHashrate_return False"
  by (simp add: GetHashrate_def Hashrate_def api_nil_def)

theorem GetHashrate_no_message_no_failure_witness:
  "remote (ethash api_nil) = None
   \<and> GetHashrate of_nat (\<lambda>e. 1500 :: nat) api_nil heap0 = (heap0, Some 1500)
   \<and> GetHashrate of_nat (\<lambda>e. 1500 :: nat) api0 heap0 = (heap0, Some 1500)"
  using GetHashrate_no_message_no_failure
      [where ?uint64.0 = of_nat and meter = "\<lambda>e. 1500 :: nat" and api = api0 and h = heap0]
  by (simp add: api_nil_def)

section \<open>The submitted solution as sent\<close>

text \<open>Leaving the first \<^verbatim>\<open>select\<close> of SubmitWork by the send.\<close>

lemma SubmitWork_send_cases:
  assumes "remote (ethash api) = Some r"
    and "snd (SubmitWork Decode api p (h, SubmitWork_send m)) = SubmitWork_wait d"
  shows "d = mineResult.errc m \<and>
         (\<exists>c. chans_mineResult h (submitWorkCh r) = Some c \<and> \<not> closed c \<and>
              fst (SubmitWork Decode api p (h, SubmitWork_send m)) =
                h\<lparr>chans_mineResult := (chans_mineResult h)(submitWorkCh r \<mapsto> chansend m c)\<rparr>)"
  using assms by (auto split: chosen.splits option.splits if_splits)

text \<open>
  C10. With an engine configured and an extra nonce that is absent or decodes, the
  message SubmitWork builds carries the caller's nonce, hash and digest, and as
  \<^verbatim>\<open>extraNonce\<close> the decoded bytes, or nil when \<^verbatim>\<open>extraNonceStr\<close> is nil. Whenever
  the call passes its send, the value given to the submit-work channel (handed to the
  parked worker, or appended to the buffer) is that message.
\<close>

theorem SubmitWork_message_fields:
  assumes "remote (ethash api) = Some r"
    and "case extraNonceStr of None \<Rightarrow> True | Some s \<Rightarrow> snd (Decode s) = None"
  shows "snd (SubmitWork Decode api p (h, SubmitWork_entry n hsh digest extraNonceStr)) =
           SubmitWork_send
             \<lparr>nonce = n, mixDigest = digest, hash = hsh,
              extraNonce = (case extraNonceStr of None \<Rightarrow> None | Some s \<Rightarrow> fst (Decode s)),
              errc = nxt h\<rparr>
       \<and> (snd (SubmitWork Decode api p' (h', SubmitWork_send m)) = SubmitWork_wait d \<longrightarrow>
            (\<exists>c. chans_mineResult h' (submitWorkCh r) = Some c \<and>
                 chans_mineResult (fst (SubmitWork Decode api p' (h', SubmitWork_send m)))
                   (submitWorkCh r) = Some (chansend m c) \<and>
                 (if 0 < recvq c
                  then handed (chansend m c) = handed c @ [m] \<and> buf (chansend m c) = buf c
                  else buf (chansend m c) = buf c @ [m] \<and> handed (chansend m c) = handed c)))"
proof -
  have 1: "snd (SubmitWork Decode api p (h, SubmitWork_entry n hsh digest extraNonceStr)) =
           SubmitWork_send
             \<lparr>nonce = n, mixDigest = digest, hash = hsh,
              extraNonce = (case extraNonceStr of None \<Rightarrow> None | Some s \<Rightarrow> fst (Decode s)),
              errc = nxt h\<rparr>"
  proof (cases extraNonceStr)
    case None
    then show ?thesis using assms(1) by (simp add: Let_def)
  next
    case (Some s)
    obtain b e where be: "Decode s = (b, e)"
      by (cases "Decode s")
    with assms(2) Some have "e = None"
      by simp
    with be Some assms(1) show ?thesis
      by (simp add: Let_def)
  qed
  have 2: "\<exists>c. chans_mineResult h' (submitWorkCh r) = Some c \<and>
                 chans_mineResult (fst (SubmitWork Decode api p' (h', SubmitWork_send m)))
                   (submitWorkCh r) = Some (chansend m c) \<and>
                 (if 0 < recvq c
                  then handed (chansend m c) = handed c @ [m] \<and> buf (chansend m c) = buf c
                  else buf (chansend m c) = buf c @ [m] \<and> handed (chansend m c) = handed c)"
    if w: "snd (SubmitWork Decode api p' (h', SubmitWork_send m)) = SubmitWork_wait d"
  proof -
    from SubmitWork_send_cases [OF assms(1) w]
    obtain c where c: "chans_mineResult h' (submitWorkCh r) = Some c"
      and h: "fst (SubmitWork Decode api p' (h', SubmitWork_send m)) =
                h'\<lparr>chans_mineResult := (chans_mineResult h')(submitWorkCh r \<mapsto> chansend m c)\<rparr>"
      by blast
    show ?thesis
      using c h by (simp add: chansend_def)
  qed
  show ?thesis
    using 1 2 by blast
qed

theorem SubmitWork_message_fields_witness:
  "snd (SubmitWork hexutil_Decode api0 Case1_first
          (heap0, SubmitWork_entry 1 2 3 (Some ''0x0aff''))) =
     SubmitWork_send
       \<lparr>nonce = 1, mixDigest = 3, hash = 2, extraNonce = Some [10, 255], errc = 4\<rparr>
   \<and> snd (SubmitWork hexutil_Decode api0 Case1_first
          (heap0, SubmitWork_entry 1 2 3 None)) =
     SubmitWork_send \<lparr>nonce = 1, mixDigest = 3, hash = 2, extraNonce = None, errc = 4\<rparr>
   \<and> map_option handed
         (chans_mineResult
            (fst (run (SubmitWork hexutil_Decode api0)
                    [(\<lambda>h. h, Case1_first), (\<lambda>h. h, Case1_first)]
                    (heap0, SubmitWork_entry 1 2 3 (Some ''0x0aff'')))) 1) =
       Some [\<lparr>nonce = 1, mixDigest = 3, hash = 2, extraNonce = Some [10, 255], errc = 4\<rparr>]"
proof -
  have r: "remote (ethash api0) = Some remote0"
    by (simp add: api0_def)
  have d: "hexutil_Decode ''0x0aff'' = (Some [10, 255], None)"
    by (simp add: hexutil_Decode_def has0xPrefix_def fromHexChar_def)
  have a: "case Some ''0x0aff'' of None \<Rightarrow> True | Some s \<Rightarrow> snd (hexutil_Decode s) = None"
    by (simp add: d)
  have b: "case None of None \<Rightarrow> True | Some s \<Rightarrow> snd (hexutil_Decode s) = None"
    by simp
  have run: "map_option handed
         (chans_mineResult
            (fst (run (SubmitWork hexutil_Decode api0)
                    [(\<lambda>h. h, Case1_first), (\<lambda>h. h, Case1_first)]
                    (heap0, SubmitWork_entry 1 2 3 (Some ''0x0aff'')))) 1) =
       Some [\<lparr>nonce = 1, mixDigest = 3, hash = 2, extraNonce = Some [10, 255], errc = 4\<rparr>]"
    by (simp add: d api0_def remote0_def heap0_def select2_def send_ready_def recv_ready_def
        make_chan_def chansend_def)
  show ?thesis
    using SubmitWork_message_fields
        [where Decode = hexutil_Decode and api = api0 and r = remote0 and p = Case1_first
           and h = heap0 and n = 1 and hsh = 2 and digest = 3, OF r a]
      SubmitWork_message_fields
        [where Decode = hexutil_Decode and api = api0 and r = remote0 and p = Case1_first
           and h = heap0 and n = 1 and hsh = 2 and digest = 3, OF r b]
      run d
    by (simp add: heap0_def)
qed

section \<open>No cancellation after the send\<close>

lemma GetWork_wait_parked:
  assumes "\<not> recv_ready (chans_work h workCh)" and "\<not> recv_ready (chans_err h errCh)"
  shows "GetWork api p (h, GetWork_wait workCh errCh) = (h, GetWork_wait workCh errCh)"
  using assms by (simp add: select2_def)

lemma SubmitWork_wait_parked:
  assumes "\<not> recv_ready (chans_err h errCh)"
  shows "SubmitWork Decode api p (h, SubmitWork_wait errCh) = (h, SubmitWork_wait errCh)"
  using assms by simp

lemma GetWork_wait_forever:
  assumes "\<forall>ep \<in> set sch. \<forall>h.
             \<not> recv_ready (chans_work h workCh) \<and> \<not> recv_ready (chans_err h errCh) \<longrightarrow>
             \<not> recv_ready (chans_work (fst ep h) workCh) \<and>
             \<not> recv_ready (chans_err (fst ep h) errCh)"
    and "\<not> recv_ready (chans_work h workCh)" and "\<not> recv_ready (chans_err h errCh)"
  shows "snd (run (GetWork api) sch (h, GetWork_wait workCh errCh)) =
           GetWork_wait workCh errCh"
  using assms
proof (induction sch arbitrary: h)
  case Nil
  then show ?case by simp
next
  case (Cons ep sch)
  have q: "\<not> recv_ready (chans_work (fst ep h) workCh) \<and>
           \<not> recv_ready (chans_err (fst ep h) errCh)"
    using Cons.prems by simp
  have "GetWork api (snd ep) (fst ep h, GetWork_wait workCh errCh) =
        (fst ep h, GetWork_wait workCh errCh)"
    using q by (intro GetWork_wait_parked) simp_all
  then have "run (GetWork api) (ep # sch) (h, GetWork_wait workCh errCh) =
        run (GetWork api) sch (fst ep h, GetWork_wait workCh errCh)"
    by (simp only: run.simps fst_conv snd_conv)
  moreover have "snd (run (GetWork api) sch (fst ep h, GetWork_wait workCh errCh)) =
        GetWork_wait workCh errCh"
    using Cons.IH [of "fst ep h"] Cons.prems(1) q by simp
  ultimately show ?case by simp
qed

lemma SubmitWork_wait_forever:
  assumes "\<forall>ep \<in> set sch. \<forall>h.
             \<not> recv_ready (chans_err h errCh) \<longrightarrow> \<not> recv_ready (chans_err (fst ep h) errCh)"
    and "\<not> recv_ready (chans_err h errCh)"
  shows "snd (run (SubmitWork Decode api) sch (h, SubmitWork_wait errCh)) =
           SubmitWork_wait errCh"
  using assms
proof (induction sch arbitrary: h)
  case Nil
  then show ?case by simp
next
  case (Cons ep sch)
  have q: "\<not> recv_ready (chans_err (fst ep h) errCh)"
    using Cons.prems by simp
  have "SubmitWork Decode api (snd ep) (fst ep h, SubmitWork_wait errCh) =
        (fst ep h, SubmitWork_wait errCh)"
    using q by (intro SubmitWork_wait_parked)
  then have "run (SubmitWork Decode api) (ep # sch) (h, SubmitWork_wait errCh) =
        run (SubmitWork Decode api) sch (fst ep h, SubmitWork_wait errCh)"
    by (simp only: run.simps fst_conv snd_conv)
  moreover have "snd (run (SubmitWork Decode api) sch (fst ep h, SubmitWork_wait errCh)) =
        SubmitWork_wait errCh"
    using Cons.IH [of "fst ep h"] Cons.prems(1) q by simp
  ultimately show ?case by simp
qed

text \<open>
  C7. Once GetWork or SubmitWork waits for its reply, the wait does not read the exit
  channel: the outcome of a step from the wait is the same whatever the unit channels,
  \<^verbatim>\<open>exitCh\<close> among them, hold. So under every schedule in which the rest of the
  program never makes the reply channels ready (the engine may close \<^verbatim>\<open>exitCh\<close> in it),
  the call is still at its wait after the last step, however long the schedule: it never
  returns.
\<close>

theorem reply_wait_ignores_shutdown:
  shows "(\<not> recv_ready (chans_work h workCh) \<and> \<not> recv_ready (chans_err h errCh) \<and>
          (\<forall>ep \<in> set sch. \<forall>h.
             \<not> recv_ready (chans_work h workCh) \<and> \<not> recv_ready (chans_err h errCh) \<longrightarrow>
             \<not> recv_ready (chans_work (fst ep h) workCh) \<and>
             \<not> recv_ready (chans_err (fst ep h) errCh)) \<longrightarrow>
          snd (run (GetWork api) sch (h, GetWork_wait workCh errCh)) =
            GetWork_wait workCh errCh)
       \<and> (\<not> recv_ready (chans_err h errCh) \<and>
          (\<forall>ep \<in> set sch. \<forall>h.
             \<not> recv_ready (chans_err h errCh) \<longrightarrow>
             \<not> recv_ready (chans_err (fst ep h) errCh)) \<longrightarrow>
          snd (run (SubmitWork Decode api) sch (h, SubmitWork_wait errCh)) =
            SubmitWork_wait errCh)
       \<and> snd (GetWork api p (h\<lparr>chans_unit := u\<rparr>, GetWork_wait workCh errCh)) =
           snd (GetWork api p (h, GetWork_wait workCh errCh))
       \<and> snd (SubmitWork Decode api p (h\<lparr>chans_unit := u\<rparr>, SubmitWork_wait errCh)) =
           snd (SubmitWork Decode api p (h, SubmitWork_wait errCh))"
proof -
  have "snd (GetWork api p (h\<lparr>chans_unit := u\<rparr>, GetWork_wait workCh errCh)) =
           snd (GetWork api p (h, GetWork_wait workCh errCh))"
    by (simp split: chosen.splits)
  moreover have "snd (SubmitWork Decode api p (h\<lparr>chans_unit := u\<rparr>, SubmitWork_wait errCh)) =
           snd (SubmitWork Decode api p (h, SubmitWork_wait errCh))"
    by simp
  ultimately show ?thesis
    using GetWork_wait_forever [of sch workCh errCh h api]
      SubmitWork_wait_forever [of sch errCh h Decode api]
    by blast
qed

lemma engine_exit_keeps_replies [simp]:
  "chans_work (engine_exit r h) = chans_work h"
  "chans_err (engine_exit r h) = chans_err h"
  by (simp_all add: engine_exit_def)

theorem reply_wait_ignores_shutdown_witness:
  "snd (run (GetWork api0)
          [(engine_exit remote0, Case1_first), (\<lambda>h. h, Case2_first), (\<lambda>h. h, Case1_first)]
          (heap_sent, GetWork_wait 4 5)) = GetWork_wait 4 5
   \<and> snd (run (SubmitWork hexutil_Decode api0)
          [(engine_exit remote0, Case1_first), (\<lambda>h. h, Case2_first), (\<lambda>h. h, Case1_first)]
          (heap_sent, SubmitWork_wait 5)) = SubmitWork_wait 5
   \<and> recv_ready (chans_unit (engine_exit remote0 heap_sent) (exitCh remote0))"
proof -
  let ?sch = "[(engine_exit remote0, Case1_first), (\<lambda>h. h, Case2_first), (\<lambda>h. h, Case1_first)]"
  have a: "\<not> recv_ready (chans_work heap_sent 4)" "\<not> recv_ready (chans_err heap_sent 5)"
    by (simp_all add: heap_sent_def recv_ready_def make_chan_def)
  have e: "\<forall>ep \<in> set ?sch. \<forall>h.
             \<not> recv_ready (chans_work h 4) \<and> \<not> recv_ready (chans_err h 5) \<longrightarrow>
             \<not> recv_ready (chans_work (fst ep h) 4) \<and> \<not> recv_ready (chans_err (fst ep h) 5)"
    by simp
  have e': "\<forall>ep \<in> set ?sch. \<forall>h.
             \<not> recv_ready (chans_err h 5) \<longrightarrow> \<not> recv_ready (chans_err (fst ep h) 5)"
    by simp
  have x: "recv_ready (chans_unit (engine_exit remote0 heap_sent) (exitCh remote0))"
    by (simp add: engine_exit_def close_chan_def heap_sent_def heap0_def remote0_def
        recv_ready_def)
  show ?thesis
    using reply_wait_ignores_shutdown
        [where h = heap_sent and workCh = 4 and errCh = 5 and sch = ?sch and api = api0
           and Decode = hexutil_Decode]
      a e e' x
    by blast
qed

section \<open>SubmitHashrate returns true when its report is sent and signalled\<close>

lemma run_append: "run step (xs @ ys) cfg = run step ys (run step xs cfg)"
  by (induction xs arbitrary: cfg) simp_all

lemma SubmitHashrate_after_0:
  "SubmitHashrate_after api sch h rt ident 0 = (h, SubmitHashrate_entry rt ident)"
  by (simp add: SubmitHashrate_after_def)

lemma SubmitHashrate_after_Suc:
  assumes "k < length sch"
  shows "SubmitHashrate_after api sch h rt ident (Suc k) =
           SubmitHashrate api (snd (sch ! k))
             (fst (sch ! k) (fst (SubmitHashrate_after api sch h rt ident k)),
              snd (SubmitHashrate_after api sch h rt ident k))"
  using assms by (simp add: SubmitHashrate_after_def take_Suc_conv_app_nth run_append)

lemma SubmitHashrate_after_past:
  assumes "length sch \<le> k"
  shows "SubmitHashrate_after api sch h rt ident k =
           SubmitHashrate_after api sch h rt ident (length sch)"
  using assms by (simp add: SubmitHashrate_after_def)

lemma SubmitHashrate_to_true:
  "snd (SubmitHashrate api p (h, pc)) = SubmitHashrate_return True \<longleftrightarrow>
     pc = SubmitHashrate_return True \<or> (\<exists>d. pc = SubmitHashrate_wait d \<and> recv_ready (chans_unit h d))"
  by (cases pc) (auto simp: Let_def split: option.splits chosen.splits if_splits)

lemma SubmitHashrate_to_wait:
  assumes "remote (ethash api) = Some r"
  shows "snd (SubmitHashrate api p (h, pc)) = SubmitHashrate_wait d \<longleftrightarrow>
     (pc = SubmitHashrate_wait d \<and> \<not> recv_ready (chans_unit h d)) \<or>
     (\<exists>m c. pc = SubmitHashrate_send m \<and> done_c m = d \<and>
        select2 p (send_ready (chans_hashrate h (submitRateCh r)))
                  (recv_ready (chans_unit h (exitCh r))) = Case1 \<and>
        chans_hashrate h (submitRateCh r) = Some c \<and> \<not> closed c)"
  using assms
  by (cases pc) (auto simp: Let_def select2_def send_ready_def split: option.splits chosen.splits if_splits)

lemma SubmitHashrate_returned_stays:
  "snd (run (SubmitHashrate api) sch (h, SubmitHashrate_return b)) = SubmitHashrate_return b"
  by (induction sch arbitrary: h) simp_all

lemma SubmitHashrate_after_returned:
  assumes "snd (SubmitHashrate_after api sch h rt ident j) = SubmitHashrate_return b"
    and "j \<le> k"
  shows "snd (SubmitHashrate_after api sch h rt ident k) = SubmitHashrate_return b"
proof -
  have "take k sch = take j sch @ drop j (take k sch)"
    using assms(2) by (metis append_take_drop_id min.absorb1 take_take)
  then have "SubmitHashrate_after api sch h rt ident k =
      run (SubmitHashrate api) (drop j (take k sch)) (SubmitHashrate_after api sch h rt ident j)"
    by (simp add: SubmitHashrate_after_def run_append [symmetric] del: drop_take)
  with assms(1) show ?thesis
    by (metis SubmitHashrate_returned_stays prod.collapse)
qed

lemma SubmitHashrate_true_iff_signal:
  "snd (SubmitHashrate_after api sch h rt ident (length sch)) = SubmitHashrate_return True \<longleftrightarrow>
     (\<exists>k<length sch. \<exists>d.
        snd (SubmitHashrate_after api sch h rt ident k) = SubmitHashrate_wait d \<and>
        recv_ready (chans_unit (fst (sch ! k) (fst (SubmitHashrate_after api sch h rt ident k))) d))"
  (is "?L \<longleftrightarrow> ?R")
proof
  assume ?R
  then obtain k d where k: "k < length sch"
    and w: "snd (SubmitHashrate_after api sch h rt ident k) = SubmitHashrate_wait d"
    and s: "recv_ready (chans_unit (fst (sch ! k) (fst (SubmitHashrate_after api sch h rt ident k))) d)"
    by blast
  have "snd (SubmitHashrate_after api sch h rt ident (Suc k)) = SubmitHashrate_return True"
    using w s by (simp add: SubmitHashrate_after_Suc [OF k] SubmitHashrate_to_true)
  then show ?L
    using k SubmitHashrate_after_returned [of api sch h rt ident "Suc k" True "length sch"]
    by simp
next
  assume l: ?L
  have "\<exists>k<n. \<exists>d.
        snd (SubmitHashrate_after api sch h rt ident k) = SubmitHashrate_wait d \<and>
        recv_ready (chans_unit (fst (sch ! k) (fst (SubmitHashrate_after api sch h rt ident k))) d)"
    if "n \<le> length sch"
      and "snd (SubmitHashrate_after api sch h rt ident n) = SubmitHashrate_return True" for n
    using that
  proof (induction n)
    case 0
    then show ?case by (simp add: SubmitHashrate_after_0)
  next
    case (Suc n)
    then have n: "n < length sch" by simp
    from Suc.prems(2) have
      "snd (SubmitHashrate_after api sch h rt ident n) = SubmitHashrate_return True \<or>
       (\<exists>d. snd (SubmitHashrate_after api sch h rt ident n) = SubmitHashrate_wait d \<and>
         recv_ready (chans_unit (fst (sch ! n) (fst (SubmitHashrate_after api sch h rt ident n))) d))"
      by (simp add: SubmitHashrate_after_Suc [OF n] SubmitHashrate_to_true)
    then show ?case
    proof
      assume "snd (SubmitHashrate_after api sch h rt ident n) = SubmitHashrate_return True"
      with Suc.IH n obtain k d where "k < n"
        and "snd (SubmitHashrate_after api sch h rt ident k) = SubmitHashrate_wait d"
        and "recv_ready
               (chans_unit (fst (sch ! k) (fst (SubmitHashrate_after api sch h rt ident k))) d)"
        by auto
      then show ?thesis
        using less_Suc_eq by blast
    next
      assume "\<exists>d. snd (SubmitHashrate_after api sch h rt ident n) = SubmitHashrate_wait d \<and>
         recv_ready (chans_unit (fst (sch ! n) (fst (SubmitHashrate_after api sch h rt ident n))) d)"
      then show ?thesis by blast
    qed
  qed
  from this [of "length sch"] l show ?R by simp
qed

lemma SubmitHashrate_wait_was_sent:
  assumes "remote (ethash api) = Some r"
    and "snd (SubmitHashrate_after api sch h rt ident k) = SubmitHashrate_wait d"
  shows "\<exists>j<k. \<exists>m. done_c m = d \<and>
           snd (SubmitHashrate_after api sch h rt ident j) = SubmitHashrate_send m \<and>
           snd (SubmitHashrate_after api sch h rt ident (Suc j)) = SubmitHashrate_wait d"
  using assms(2)
proof (induction k)
  case 0
  then show ?case by (simp add: SubmitHashrate_after_0)
next
  case (Suc k)
  show ?case
  proof (cases "k < length sch")
    case True
    from Suc.prems have
      "snd (SubmitHashrate_after api sch h rt ident k) = SubmitHashrate_wait d \<or>
       (\<exists>m. snd (SubmitHashrate_after api sch h rt ident k) = SubmitHashrate_send m \<and>
            done_c m = d)"
      by (auto simp: SubmitHashrate_after_Suc [OF True] SubmitHashrate_to_wait [OF assms(1)])
    then show ?thesis
    proof
      assume "snd (SubmitHashrate_after api sch h rt ident k) = SubmitHashrate_wait d"
      with Suc.IH show ?thesis
        using less_Suc_eq by blast
    next
      assume "\<exists>m. snd (SubmitHashrate_after api sch h rt ident k) = SubmitHashrate_send m \<and>
            done_c m = d"
      with Suc.prems show ?thesis by blast
    qed
  next
    case False
    then have "SubmitHashrate_after api sch h rt ident (Suc k) =
               SubmitHashrate_after api sch h rt ident k"
      by (simp add: SubmitHashrate_after_def)
    with Suc show ?thesis
      using less_Suc_eq by auto
  qed
qed

lemma SubmitHashrate_wait_then:
  assumes "snd (SubmitHashrate_after api sch h rt ident j) = SubmitHashrate_wait d"
  shows "snd (SubmitHashrate_after api sch h rt ident (j + n)) = SubmitHashrate_wait d \<or>
         snd (SubmitHashrate_after api sch h rt ident (j + n)) = SubmitHashrate_return True"
proof (induction n)
  case 0
  then show ?case using assms by simp
next
  case (Suc n)
  show ?case
  proof (cases "j + n < length sch")
    case True
    from Suc show ?thesis
    proof
      assume "snd (SubmitHashrate_after api sch h rt ident (j + n)) = SubmitHashrate_wait d"
      then show ?thesis
        using SubmitHashrate_after_Suc [OF True, of api h rt ident] by simp
    next
      assume "snd (SubmitHashrate_after api sch h rt ident (j + n)) = SubmitHashrate_return True"
      then show ?thesis
        using SubmitHashrate_after_Suc [OF True, of api h rt ident] by simp
    qed
  next
    case False
    then have "SubmitHashrate_after api sch h rt ident (j + Suc n) =
               SubmitHashrate_after api sch h rt ident (j + n)"
      by (simp add: SubmitHashrate_after_def)
    with Suc show ?thesis by simp
  qed
qed

lemma SubmitHashrate_to_send:
  assumes "snd (SubmitHashrate api p (h, pc)) = SubmitHashrate_send m"
  shows "pc = SubmitHashrate_send m \<or>
         pc = SubmitHashrate_entry (rate m) (hashrate.id m) \<and> done_c m = nxt h"
  using assms
  by (cases pc) (auto simp: Let_def split: option.splits chosen.splits if_splits)

lemma SubmitHashrate_send_is_own:
  assumes "snd (SubmitHashrate_after api sch h rt ident k) = SubmitHashrate_send m"
  shows "rate m = rt \<and> hashrate.id m = ident"
  using assms
proof (induction k)
  case 0
  then show ?case by (simp add: SubmitHashrate_after_0)
next
  case (Suc k)
  show ?case
  proof (cases "k < length sch")
    case True
    from Suc.prems have
      "snd (SubmitHashrate_after api sch h rt ident k) = SubmitHashrate_send m \<or>
       snd (SubmitHashrate_after api sch h rt ident k) =
         SubmitHashrate_entry (rate m) (hashrate.id m)"
      using SubmitHashrate_to_send
        [of api "snd (sch ! k)" "fst (sch ! k) (fst (SubmitHashrate_after api sch h rt ident k))"
           "snd (SubmitHashrate_after api sch h rt ident k)" m]
      by (auto simp: SubmitHashrate_after_Suc [OF True])
    then show ?thesis
    proof
      assume "snd (SubmitHashrate_after api sch h rt ident k) = SubmitHashrate_send m"
      then show ?thesis by (rule Suc.IH)
    next
      assume e: "snd (SubmitHashrate_after api sch h rt ident k) =
         SubmitHashrate_entry (rate m) (hashrate.id m)"
      have "snd (SubmitHashrate_after api sch h rt ident i) = SubmitHashrate_entry rt' ident' \<Longrightarrow>
            rt' = rt \<and> ident' = ident" for i rt' ident'
      proof (induction i)
        case 0
        then show ?case by (simp add: SubmitHashrate_after_0)
      next
        case (Suc i)
        show ?case
        proof (cases "i < length sch")
          case True
          have "snd (SubmitHashrate api p (g, pc)) \<noteq> SubmitHashrate_entry rt' ident'" for p g pc
            by (cases pc) (auto simp: Let_def split: option.splits chosen.splits if_splits)
          with Suc.prems show ?thesis
            by (simp add: SubmitHashrate_after_Suc [OF True])
        next
          case False
          then have "SubmitHashrate_after api sch h rt ident (Suc i) =
                     SubmitHashrate_after api sch h rt ident i"
            by (simp add: SubmitHashrate_after_def)
          with Suc show ?thesis by simp
        qed
      qed
      from this [OF e] show ?thesis .
    qed
  next
    case False
    then have "SubmitHashrate_after api sch h rt ident (Suc k) =
               SubmitHashrate_after api sch h rt ident k"
      by (simp add: SubmitHashrate_after_def)
    with Suc show ?thesis by simp
  qed
qed

lemma SubmitHashrate_send_cases:
  assumes "remote (ethash api) = Some r"
    and "snd (SubmitHashrate api p (h, SubmitHashrate_send m)) = SubmitHashrate_wait d"
  shows "d = done_c m \<and>
         select2 p (send_ready (chans_hashrate h (submitRateCh r)))
                   (recv_ready (chans_unit h (exitCh r))) = Case1 \<and>
         (\<exists>c. chans_hashrate h (submitRateCh r) = Some c \<and> \<not> closed c \<and>
              fst (SubmitHashrate api p (h, SubmitHashrate_send m)) =
                h\<lparr>chans_hashrate := (chans_hashrate h)(submitRateCh r \<mapsto> chansend m c)\<rparr>)"
  using assms by (auto split: chosen.splits option.splits if_splits)

text \<open>
  C6. With an engine configured, a SubmitHashrate call run under a schedule returns true
  exactly when, at some step, it left its send for the wait on the done channel of its
  own report (the caller's rate and id) and, at a later step, found that done channel
  ready while waiting on it. Once it waits, it can only be at the same wait or have
  returned true. Leaving the send for the wait means that the \<^verbatim>\<open>select\<close> took the send
  case and not the exit case: the intake channel was open and was given the report.
\<close>

theorem SubmitHashrate_true_iff_sent_and_signalled:
  assumes "remote (ethash api) = Some r"
  shows "(snd (run (SubmitHashrate api) sch (h, SubmitHashrate_entry rt ident)) =
            SubmitHashrate_return True \<longleftrightarrow>
          (\<exists>j k m. j < k \<and> k < length sch \<and> rate m = rt \<and> hashrate.id m = ident \<and>
             snd (SubmitHashrate_after api sch h rt ident j) = SubmitHashrate_send m \<and>
             snd (SubmitHashrate_after api sch h rt ident (Suc j)) =
               SubmitHashrate_wait (done_c m) \<and>
             snd (SubmitHashrate_after api sch h rt ident k) = SubmitHashrate_wait (done_c m) \<and>
             recv_ready
               (chans_unit (fst (sch ! k) (fst (SubmitHashrate_after api sch h rt ident k)))
                  (done_c m))))
       \<and> (snd (SubmitHashrate_after api sch h rt ident i) = SubmitHashrate_wait d \<longrightarrow>
            snd (SubmitHashrate_after api sch h rt ident (i + n)) = SubmitHashrate_wait d \<or>
            snd (SubmitHashrate_after api sch h rt ident (i + n)) = SubmitHashrate_return True)
       \<and> (snd (SubmitHashrate api p (h', SubmitHashrate_send m')) = SubmitHashrate_wait d' \<longrightarrow>
            d' = done_c m' \<and>
            select2 p (send_ready (chans_hashrate h' (submitRateCh r)))
                      (recv_ready (chans_unit h' (exitCh r))) = Case1 \<and>
            (\<exists>c. chans_hashrate h' (submitRateCh r) = Some c \<and> \<not> closed c \<and>
                 fst (SubmitHashrate api p (h', SubmitHashrate_send m')) =
                   h'\<lparr>chans_hashrate :=
                        (chans_hashrate h')(submitRateCh r \<mapsto> chansend m' c)\<rparr>))"
proof -
  let ?at = "SubmitHashrate_after api sch h rt ident"
  have fin: "run (SubmitHashrate api) sch (h, SubmitHashrate_entry rt ident) = ?at (length sch)"
    by (simp add: SubmitHashrate_after_def)
  have 1: "snd (?at (length sch)) = SubmitHashrate_return True \<longleftrightarrow>
          (\<exists>j k m. j < k \<and> k < length sch \<and> rate m = rt \<and> hashrate.id m = ident \<and>
             snd (?at j) = SubmitHashrate_send m \<and>
             snd (?at (Suc j)) = SubmitHashrate_wait (done_c m) \<and>
             snd (?at k) = SubmitHashrate_wait (done_c m) \<and>
             recv_ready (chans_unit (fst (sch ! k) (fst (?at k))) (done_c m)))"
    (is "?L \<longleftrightarrow> ?R")
  proof
    assume ?L
    then obtain k d where k: "k < length sch" and w: "snd (?at k) = SubmitHashrate_wait d"
      and s: "recv_ready (chans_unit (fst (sch ! k) (fst (?at k))) d)"
      using SubmitHashrate_true_iff_signal [of api sch h rt ident] by blast
    from SubmitHashrate_wait_was_sent [OF assms w]
    obtain j m where j: "j < k" and m: "done_c m = d"
      and a: "snd (?at j) = SubmitHashrate_send m"
      and b: "snd (?at (Suc j)) = SubmitHashrate_wait d"
      by blast
    from SubmitHashrate_send_is_own [OF a] have "rate m = rt \<and> hashrate.id m = ident" .
    with j k m a b w s show ?R by blast
  next
    assume ?R
    then have "\<exists>k<length sch. \<exists>d. snd (?at k) = SubmitHashrate_wait d \<and>
        recv_ready (chans_unit (fst (sch ! k) (fst (?at k))) d)"
      by blast
    then show ?L
      using SubmitHashrate_true_iff_signal [of api sch h rt ident] by blast
  qed
  have 2: "snd (?at i) = SubmitHashrate_wait d \<longrightarrow>
            snd (?at (i + n)) = SubmitHashrate_wait d \<or>
            snd (?at (i + n)) = SubmitHashrate_return True"
    using SubmitHashrate_wait_then [of api sch h rt ident i d n] by blast
  have 3: "snd (SubmitHashrate api p (h', SubmitHashrate_send m')) = SubmitHashrate_wait d' \<longrightarrow>
            d' = done_c m' \<and>
            select2 p (send_ready (chans_hashrate h' (submitRateCh r)))
                      (recv_ready (chans_unit h' (exitCh r))) = Case1 \<and>
            (\<exists>c. chans_hashrate h' (submitRateCh r) = Some c \<and> \<not> closed c \<and>
                 fst (SubmitHashrate api p (h', SubmitHashrate_send m')) =
                   h'\<lparr>chans_hashrate :=
                        (chans_hashrate h')(submitRateCh r \<mapsto> chansend m' c)\<rparr>)"
    using SubmitHashrate_send_cases [OF assms, of p h' m' d'] by blast
  from 1 2 3 show ?thesis
    unfolding fin by blast
qed

theorem SubmitHashrate_true_iff_sent_and_signalled_witness:
  "remote (ethash api0) = Some remote0
   \<and> snd (run (SubmitHashrate api0)
            [(\<lambda>h. h, Case1_first), (\<lambda>h. h, Case1_first), (worker_done 4, Case1_first)]
            (heap0, SubmitHashrate_entry 1000 7)) = SubmitHashrate_return True
   \<and> (\<exists>j k m. j < k \<and> k < 3 \<and> rate m = 1000 \<and> hashrate.id m = 7 \<and>
         snd (SubmitHashrate_after api0
                [(\<lambda>h. h, Case1_first), (\<lambda>h. h, Case1_first), (worker_done 4, Case1_first)]
                heap0 1000 7 j) = SubmitHashrate_send m \<and>
         snd (SubmitHashrate_after api0
                [(\<lambda>h. h, Case1_first), (\<lambda>h. h, Case1_first), (worker_done 4, Case1_first)]
                heap0 1000 7 k) = SubmitHashrate_wait (done_c m))
   \<and> snd (run (SubmitHashrate api0)
            [(\<lambda>h. h, Case1_first), (\<lambda>h. h, Case1_first), (\<lambda>h. h, Case1_first)]
            (heap0, SubmitHashrate_entry 1000 7)) = SubmitHashrate_wait 4
   \<and> snd (run (SubmitHashrate api0)
            [(\<lambda>h. h, Case1_first), (engine_exit remote0, Case2_first)]
            (heap0, SubmitHashrate_entry 1000 7)) = SubmitHashrate_return False"
proof -
  let ?sch = "[(\<lambda>h. h, Case1_first), (\<lambda>h. h, Case1_first), (worker_done 4, Case1_first)]"
  have r: "remote (ethash api0) = Some remote0"
    by (simp add: api0_def)
  have t: "snd (run (SubmitHashrate api0) ?sch (heap0, SubmitHashrate_entry 1000 7)) =
             SubmitHashrate_return True"
    by (simp add: api0_def remote0_def heap0_def select2_def send_ready_def recv_ready_def
        make_chan_def worker_done_def close_chan_def chansend_def)
  have w: "snd (run (SubmitHashrate api0)
            [(\<lambda>h. h, Case1_first), (\<lambda>h. h, Case1_first), (\<lambda>h. h, Case1_first)]
            (heap0, SubmitHashrate_entry 1000 7)) = SubmitHashrate_wait 4"
    by (simp add: api0_def remote0_def heap0_def select2_def send_ready_def recv_ready_def
        make_chan_def chansend_def)
  have f: "snd (run (SubmitHashrate api0)
            [(\<lambda>h. h, Case1_first), (engine_exit remote0, Case2_first)]
            (heap0, SubmitHashrate_entry 1000 7)) = SubmitHashrate_return False"
    by (simp add: api0_def remote0_def heap0_def select2_def send_ready_def recv_ready_def
        make_chan_def engine_exit_def close_chan_def)
  from SubmitHashrate_true_iff_sent_and_signalled
         [OF r, where sch = ?sch and h = heap0 and rt = 1000 and ident = 7] t
  have "\<exists>j k m. j < k \<and> k < length ?sch \<and> rate m = 1000 \<and> hashrate.id m = 7 \<and>
         snd (SubmitHashrate_after api0 ?sch heap0 1000 7 j) = SubmitHashrate_send m \<and>
         snd (SubmitHashrate_after api0 ?sch heap0 1000 7 (Suc j)) =
           SubmitHashrate_wait (done_c m) \<and>
         snd (SubmitHashrate_after api0 ?sch heap0 1000 7 k) = SubmitHashrate_wait (done_c m) \<and>
         recv_ready
           (chans_unit (fst (?sch ! k) (fst (SubmitHashrate_after api0 ?sch heap0 1000 7 k)))
              (done_c m))"
    by blast
  then have "\<exists>j k m. j < k \<and> k < 3 \<and> rate m = 1000 \<and> hashrate.id m = 7 \<and>
         snd (SubmitHashrate_after api0 ?sch heap0 1000 7 j) = SubmitHashrate_send m \<and>
         snd (SubmitHashrate_after api0 ?sch heap0 1000 7 k) = SubmitHashrate_wait (done_c m)"
    by (simp only: length_Cons list.size) (metis One_nat_def Suc_1 add_Suc_right numeral_3_eq_3 plus_nat.add_0)
  with r t w f show ?thesis by blast
qed

section \<open>Private reply channels\<close>




lemma mentioned_reply_update [simp]:
  "mentioned (h\<lparr>chans_work := w\<rparr>) = mentioned h"
  "mentioned (h\<lparr>chans_err := e\<rparr>) = mentioned h"
  "mentioned (h\<lparr>chans_unit := u\<rparr>) = mentioned h"
  "mentioned (h\<lparr>nxt := n\<rparr>) = mentioned h"
  by (simp_all add: mentioned_def)

lemma nxt_store_update [simp]:
  "nxt (h\<lparr>chans_work := w\<rparr>) = nxt h"
  by simp








































lemma alloc_ok_engine_exit: "alloc_ok g \<Longrightarrow> alloc_ok (engine_exit r g)"
  by (auto simp: alloc_ok_def fresh_def mentioned_def engine_exit_def close_chan_def
      split: option.splits)

lemma alloc_ok_worker_reply_work: "alloc_ok g \<Longrightarrow> alloc_ok (worker_reply_work c w g)"
  by (auto simp: alloc_ok_def fresh_def mentioned_def worker_reply_work_def send_chan_def
      split: option.splits)


lemma alloc_ok_worker_done: "alloc_ok g \<Longrightarrow> alloc_ok (worker_done c g)"
  by (auto simp: alloc_ok_def fresh_def mentioned_def worker_done_def close_chan_def
      split: option.splits)

lemma nxt_environment [simp]:
  "nxt (engine_exit r g) = nxt g"
  "nxt (worker_reply_work c w g) = nxt g"
  "nxt (worker_reply_err c e g) = nxt g"
  "nxt (worker_done c g) = nxt g"
  by (simp_all add: engine_exit_def worker_reply_work_def worker_reply_err_def worker_done_def)




end
